theory Spec2Isabelle
  imports Complex_Main
begin

section \<open>Errors\<close>

text \<open>
  The Python exceptions that the modelled code can raise. A function that can raise
  returns \<open>exn + 'a\<close>, with \<open>Inl\<close> the exception. The exceptions of the \<open>requests\<close>
  library (a URL it cannot use, connection refused, timeout, a stream broken in the
  middle) and the errors of the operating system on files (\<open>OSError\<close> and its subclasses)
  are kept apart in types of their own.
\<close>

datatype request_error = InvalidURL | ConnectionFailed | Timeout | ChunkedEncodingError

datatype os_error = FileNotFoundError | PermissionError | IsADirectoryError | NoSpaceLeft

datatype exn =
    ValueError
  | AssertionError
  | RuntimeError
  | RequestException request_error
  | OSError os_error

section \<open>Statistic computation\<close>

text \<open>
  The scores are numpy arrays of floating-point numbers. They are modelled as lists of
  exact reals: the rounding of floating-point arithmetic is not part of the model.
\<close>

text \<open>\<open>np.arange(a, b)\<close>: the integers from \<open>a\<close> up to \<open>b - 1\<close>.\<close>

definition arange :: "int \<Rightarrow> int \<Rightarrow> real list" where
  "arange a b = map real_of_int [a..b - 1]"

text \<open>
  An arithmetic operation on two one-dimensional arrays: elementwise on arrays of the
  same length, an array of length one is stretched to the other's length, and any other
  pair of lengths raises \<open>ValueError\<close>.
\<close>

definition broadcast :: "(real \<Rightarrow> real \<Rightarrow> real) \<Rightarrow> real list \<Rightarrow> real list \<Rightarrow> exn + real list" where
  "broadcast f xs ys =
     (if length xs = length ys then Inr (map2 f xs ys)
      else if length xs = 1 then Inr (map (f (hd xs)) ys)
      else if length ys = 1 then Inr (map (\<lambda>x. f x (hd ys)) xs)
      else Inl ValueError)"

text \<open>\<open>np.sqrt\<close> of a number: \<open>None\<close> stands for the \<open>nan\<close> it gives on a negative argument.\<close>

definition np_sqrt :: "real \<Rightarrow> real option" where
  "np_sqrt v = (if v < 0 then None else Some (sqrt v))"

definition get_mean_score :: "real list \<Rightarrow> exn + real" where
  "get_mean_score score =
     (let buckets = arange 1 11 in
      case broadcast (*) buckets score of
        Inl e \<Rightarrow> Inl e
      | Inr prods \<Rightarrow> Inr (sum_list prods))"

definition get_std_score :: "real list \<Rightarrow> exn + real option" where
  "get_std_score scores =
     (let si = arange 1 11 in
      case get_mean_score scores of
        Inl e \<Rightarrow> Inl e
      | Inr mean \<Rightarrow>
          (case broadcast (*) (map (\<lambda>d. d ^ 2) (map (\<lambda>s. s - mean) si)) scores of
             Inl e \<Rightarrow> Inl e
           | Inr terms \<Rightarrow> Inr (np_sqrt (sum_list terms))))"

text \<open>
  A score distribution: ten non-negative values, one per bucket \<open>1..10\<close>, summing to one.
\<close>

definition ScoreDistribution :: "real list \<Rightarrow> bool" where
  "ScoreDistribution p \<longleftrightarrow> length p = 10 \<and> (\<forall>x \<in> set p. 0 \<le> x) \<and> sum_list p = 1"

text \<open>The distribution with all its mass on bucket \<open>k\<close>, and the uniform one.\<close>

definition delta :: "nat \<Rightarrow> real list" where
  "delta k = map (\<lambda>i. if i = k then 1 else 0) [1..<11]"

definition uniform :: "real list" where
  "uniform = replicate 10 (1 / 10)"

text \<open>The population standard deviation of a list of numbers, as statistics defines it.\<close>

definition population_std :: "real list \<Rightarrow> real" where
  "population_std xs =
     (let n = real (length xs); m = sum_list xs / n
      in sqrt (sum_list (map (\<lambda>x. (x - m) ^ 2) xs) / n))"

text \<open>
  The weighted sum and the weighted sum of squared deviations of ten values, written out.
  They name the closed forms that the two statistics take on an array of length ten.
\<close>

definition mean10 ::
  "real \<Rightarrow> real \<Rightarrow> real \<Rightarrow> real \<Rightarrow> real \<Rightarrow> real \<Rightarrow> real \<Rightarrow> real \<Rightarrow> real \<Rightarrow> real \<Rightarrow> real" where
  "mean10 a b c d e f g h i j =
     a + 2 * b + 3 * c + 4 * d + 5 * e + 6 * f + 7 * g + 8 * h + 9 * i + 10 * j"

definition var10 ::
  "real \<Rightarrow> real \<Rightarrow> real \<Rightarrow> real \<Rightarrow> real \<Rightarrow> real \<Rightarrow> real \<Rightarrow> real \<Rightarrow> real \<Rightarrow> real \<Rightarrow> real \<Rightarrow> real" where
  "var10 m a b c d e f g h i j =
     (1 - m)\<^sup>2 * a + (2 - m)\<^sup>2 * b + (3 - m)\<^sup>2 * c + (4 - m)\<^sup>2 * d + (5 - m)\<^sup>2 * e
       + (6 - m)\<^sup>2 * f + (7 - m)\<^sup>2 * g + (8 - m)\<^sup>2 * h + (9 - m)\<^sup>2 * i + (10 - m)\<^sup>2 * j"

section \<open>Weight provisioning\<close>

text \<open>
  The world that \<open>download_file\<close> acts on: the files (a map from path to content), the
  URLs handed to \<open>requests.get\<close> so far (one entry per use of the transport layer), the
  lines printed, and what the operating system refuses. \<open>open_error\<close> gives the error
  that opening a path in mode \<open>'wb'\<close> raises, if any (\<open>FileNotFoundError\<close> when the
  directory of the path does not exist, \<open>PermissionError\<close> when it may not be written).
  \<open>write_error\<close> gives the error that a write raises, if any, from the path and the
  size the file would reach (a full disk). Printing is taken to succeed.
\<close>

record world =
  fs :: "string \<rightharpoonup> string"
  requests :: "string list"
  stdout :: "string list"
  open_error :: "string \<Rightarrow> os_error option"
  write_error :: "string \<Rightarrow> nat \<Rightarrow> os_error option"

text \<open>
  A response of the server: its HTTP status, and what iterating over its content in
  chunks of a given size yields: the chunks received, and the failure that ends the
  iteration early, if any.
\<close>

record response =
  status_code :: nat
  iter_content :: "nat \<Rightarrow> string list \<times> request_error option"

text \<open>
  The loop over the chunks: a chunk that is not empty is appended to the open file. The
  loop stops at the first write that raises; what was written before stays in the file.
\<close>

fun write_chunks ::
  "(string \<Rightarrow> nat \<Rightarrow> os_error option) \<Rightarrow> string \<Rightarrow> string list \<Rightarrow> (string \<rightharpoonup> string) \<Rightarrow>
     os_error option \<times> (string \<rightharpoonup> string)" where
  "write_chunks refuse f [] files = (None, files)"
| "write_chunks refuse f (chunk # rest) files =
     (if chunk \<noteq> [] then
        (let content = (case files f of None \<Rightarrow> [] | Some c \<Rightarrow> c) in
         case refuse f (length content + length chunk) of
           Some e \<Rightarrow> (Some e, files)
         | None \<Rightarrow> write_chunks refuse f rest (files(f \<mapsto> content @ chunk)))
      else write_chunks refuse f rest files)"

text \<open>
  \<open>download_file(url, local_filename, chunk_size)\<close>. The network is the function \<open>net\<close>:
  what \<open>requests.get(url, stream=True)\<close> returns or raises. Opening the file in mode
  \<open>'wb'\<close> creates it empty, or raises and creates nothing. The \<open>with\<close> block closes the
  file also when a write or the iteration raises, so the chunks written before a failure
  stay in the file. A failure of the stream shows after the chunks received before it
  have been written.
\<close>

definition download_file ::
  "(string \<Rightarrow> request_error + response) \<Rightarrow> string \<Rightarrow> string \<Rightarrow> nat \<Rightarrow> world \<Rightarrow> (exn + string) \<times> world" where
  "download_file net url local_filename chunk_size w =
     (if fs w local_filename \<noteq> None then (Inr local_filename, w)
      else
        let w1 = w\<lparr>requests := requests w @ [url]\<rparr> in
        case net url of
          Inl t \<Rightarrow> (Inl (RequestException t), w1)
        | Inr r \<Rightarrow>
            let w2 = w1\<lparr>stdout := stdout w1 @ [''Opening '' @ local_filename]\<rparr> in
            case open_error w2 local_filename of
              Some e \<Rightarrow> (Inl (OSError e), w2)
            | None \<Rightarrow>
                let w3 = w2\<lparr>fs := (fs w2)(local_filename \<mapsto> [])\<rparr>;
                    (chunks, failure) = iter_content r chunk_size;
                    (refused, files) = write_chunks (write_error w3) local_filename chunks (fs w3);
                    w4 = w3\<lparr>fs := files\<rparr>
                in case refused of
                     Some e \<Rightarrow> (Inl (OSError e), w4)
                   | None \<Rightarrow>
                       (case failure of
                          Some t \<Rightarrow> (Inl (RequestException t), w4)
                        | None \<Rightarrow> (Inr local_filename, w4)))"

section \<open>Network architecture\<close>

text \<open>
  The layers of \<open>torch.nn\<close> that the code instantiates, as descriptors holding the
  arguments of their constructors. \<open>Conv2d\<close> carries input channels, output channels,
  kernel size, stride, padding and groups (every convolution here has \<open>bias=False\<close>);
  every \<open>ReLU\<close> and \<open>ReLU6\<close> here is constructed with \<open>inplace=True\<close>. The checks
  that the constructors of \<open>torch\<close> make on their own arguments are not modelled: where
  \<open>torch\<close> refuses the arguments of a layer (no channels, no groups, a negative size), the
  code raises and the constructors below still return an object. They raise whenever an
  assertion of the code fails, and what they return is what the code builds when
  \<open>torch\<close> accepts every layer, as it does for the default width multiplier \<open>1\<close>.
\<close>

datatype layer =
    Conv2d int int int int int int
  | BatchNorm2d int
  | ReLU
  | ReLU6
  | AvgPool2d int
  | Dropout real
  | Linear int int
  | Softmax nat

definition conv_bn :: "int \<Rightarrow> int \<Rightarrow> int \<Rightarrow> layer list" where
  "conv_bn inp oup stride = [Conv2d inp oup 3 stride 1 1, BatchNorm2d oup, ReLU]"

definition conv_1x1_bn :: "int \<Rightarrow> int \<Rightarrow> layer list" where
  "conv_1x1_bn inp oup = [Conv2d inp oup 1 1 0 1, BatchNorm2d oup, ReLU]"

text \<open>An \<open>InvertedResidual\<close> object: its three attributes; \<open>conv\<close> is an \<open>nn.Sequential\<close>.\<close>

record InvertedResidual =
  stride :: int
  use_res_connect :: bool
  conv :: "layer list"

definition InvertedResidual_init :: "int \<Rightarrow> int \<Rightarrow> int \<Rightarrow> int \<Rightarrow> exn + InvertedResidual" where
  "InvertedResidual_init inp oup strd expand_ratio =
     (if strd \<notin> {1, 2} then Inl AssertionError
      else Inr \<lparr>stride = strd,
                use_res_connect = (strd = 1 \<and> inp = oup),
                conv =
                  [Conv2d inp (inp * expand_ratio) 1 1 0 1,
                   BatchNorm2d (inp * expand_ratio),
                   ReLU6,
                   Conv2d (inp * expand_ratio) (inp * expand_ratio) 3 strd 1 (inp * expand_ratio),
                   BatchNorm2d (inp * expand_ratio),
                   ReLU6,
                   Conv2d (inp * expand_ratio) oup 1 1 0 1,
                   BatchNorm2d oup]\<rparr>)"

text \<open>
  \<open>InvertedResidual.forward\<close>. Running an \<open>nn.Sequential\<close> on a tensor is the work of
  \<open>torch\<close>: it is the parameter \<open>run\<close>, which may raise. The tensors are of any type with
  an addition, which stands for the elementwise \<open>+\<close> of tensors of one shape.
\<close>

definition InvertedResidual_forward ::
  "(layer list \<Rightarrow> 'a \<Rightarrow> exn + 'a) \<Rightarrow> InvertedResidual \<Rightarrow> 'a::plus \<Rightarrow> exn + 'a" where
  "InvertedResidual_forward run self x =
     (if use_res_connect self then
        (case run (conv self) x of Inl e \<Rightarrow> Inl e | Inr y \<Rightarrow> Inr (x + y))
      else run (conv self) x)"

text \<open>The entries of the list \<open>features\<close> of a \<open>MobileNetV2\<close>.\<close>

datatype module = Prim layer | Sequential "layer list" | Block InvertedResidual

record MobileNetV2 =
  interverted_residual_setting :: "(int \<times> int \<times> int \<times> int) list"
  last_channel :: int
  features :: "module list"
  classifier :: "layer list"

text \<open>Python's \<open>int(x)\<close> on a float truncates toward zero; \<open>range(n)\<close> is empty for \<open>n \<le> 0\<close>.\<close>

definition py_int :: "real \<Rightarrow> int" where
  "py_int x = (if 0 \<le> x then \<lfloor>x\<rfloor> else \<lceil>x\<rceil>)"

definition py_range :: "int \<Rightarrow> int list" where
  "py_range n = [0..n - 1]"

text \<open>
  The inner loop of the constructor, \<open>for i in range(n)\<close>, over the list of features
  built so far and the current \<open>input_channel\<close>.
\<close>

fun stage_blocks ::
  "int \<Rightarrow> int \<Rightarrow> int \<Rightarrow> int list \<Rightarrow> module list \<times> int \<Rightarrow> exn + module list \<times> int" where
  "stage_blocks t output_channel s [] acc = Inr acc"
| "stage_blocks t output_channel s (i # is) (feats, input_channel) =
     (case (if i = 0 then InvertedResidual_init input_channel output_channel s t
            else InvertedResidual_init input_channel output_channel 1 t) of
        Inl e \<Rightarrow> Inl e
      | Inr b \<Rightarrow> stage_blocks t output_channel s is (feats @ [Block b], output_channel))"

text \<open>The outer loop, \<open>for t, c, n, s in self.interverted_residual_setting\<close>.\<close>

fun stages ::
  "real \<Rightarrow> (int \<times> int \<times> int \<times> int) list \<Rightarrow> module list \<times> int \<Rightarrow> exn + module list \<times> int" where
  "stages width_mult [] acc = Inr acc"
| "stages width_mult ((t, c, n, s) # rest) acc =
     (let output_channel = py_int (real_of_int c * width_mult) in
      case stage_blocks t output_channel s (py_range n) acc of
        Inl e \<Rightarrow> Inl e
      | Inr acc' \<Rightarrow> stages width_mult rest acc')"

text \<open>
  \<open>MobileNetV2.__init__(n_class, input_size, width_mult)\<close>; the defaults are \<open>1000\<close>,
  \<open>224\<close> and \<open>1.0\<close>. The width multiplier is a real number: the products with it are
  exact here, rounded in the floating-point code (they agree when it is \<open>1\<close>). The
  random initial weights are not part of the descriptors.
\<close>

definition MobileNetV2_init :: "int \<Rightarrow> int \<Rightarrow> real \<Rightarrow> exn + MobileNetV2" where
  "MobileNetV2_init n_class input_size width_mult =
     (let setting =
            [(1, 16, 1, 1),
             (6, 24, 2, 2),
             (6, 32, 3, 2),
             (6, 64, 4, 2),
             (6, 96, 3, 1),
             (6, 160, 3, 2),
             (6, 320, 1, 1)]
      in if input_size mod 32 \<noteq> 0 then Inl AssertionError
      else
        let input_channel = py_int (32 * width_mult);
            last = (if width_mult > 1 then py_int (1280 * width_mult) else 1280);
            feats = [Sequential (conv_bn 3 input_channel 2)]
        in case stages width_mult setting (feats, input_channel) of
             Inl e \<Rightarrow> Inl e
           | Inr (feats', input_channel') \<Rightarrow>
               Inr \<lparr>interverted_residual_setting = setting,
                    last_channel = last,
                    features = feats' @ [Sequential (conv_1x1_bn input_channel' last),
                                         Prim (AvgPool2d (input_size div 32))],
                    classifier = [Dropout (1 / 2), Linear last n_class]\<rparr>)"

text \<open>
  The stage table as the specification gives it, and the blocks it describes: for a stage
  \<open>(t, c, n, s)\<close> entered with \<open>inp\<close> channels, \<open>n\<close> blocks with output channels \<open>c\<close> and
  expansion ratio \<open>t\<close>, the first with stride \<open>s\<close> and input channels \<open>inp\<close>, the others
  with stride \<open>1\<close> and input channels \<open>c\<close>. A block is given by the arguments
  \<open>(inp, oup, stride, expand_ratio)\<close> of its constructor.
\<close>

definition stage_table :: "(int \<times> int \<times> int \<times> int) list" where
  "stage_table =
     [(1, 16, 1, 1), (6, 24, 2, 2), (6, 32, 3, 2), (6, 64, 4, 2), (6, 96, 3, 1), (6, 160, 3, 2),
      (6, 320, 1, 1)]"

fun spec_blocks :: "int \<Rightarrow> (int \<times> int \<times> int \<times> int) list \<Rightarrow> (int \<times> int \<times> int \<times> int) list" where
  "spec_blocks inp [] = []"
| "spec_blocks inp ((t, c, n, s) # rest) =
     (if n \<le> 0 then spec_blocks inp rest
      else (inp, c, s, t) # replicate (nat n - 1) (c, c, 1, t) @ spec_blocks c rest)"

text \<open>
  Entered with \<open>inp\<close> channels, the first block takes \<open>inp\<close> input channels, and each
  further block takes as many input channels as the block before it has output channels.
\<close>

fun chained :: "int \<Rightarrow> (int \<times> int \<times> int \<times> int) list \<Rightarrow> bool" where
  "chained inp [] = True"
| "chained inp ((inp', oup, s, t) # rest) = (inp' = inp \<and> chained oup rest)"

section \<open>Aesthetic head\<close>

text \<open>
  \<open>NIMA.head\<close> is \<open>nn.Sequential(ReLU, Dropout(p=0.75), Linear(1280, 10), Softmax(dim=1))\<close>.
\<close>

definition NIMA_head :: "layer list" where
  "NIMA_head = [ReLU, Dropout (3 / 4), Linear 1280 10, Softmax 1]"

text \<open>
  What these four layers compute, as the documentation of \<open>torch.nn\<close> defines it, on one
  row of the batch (a vector of reals; \<open>Softmax(dim=1)\<close> normalises each row apart).
  Dropout is the identity outside training mode; in training mode it zeroes the
  positions that a random mask selects (the set \<open>dropped\<close>) and scales the others by \<open>1 / (1 - p)\<close>. A linear
  layer holds a weight matrix (one row per output) and a bias; it raises on a vector whose
  length is not its number of inputs.
\<close>

record params =
  weight :: "real list list"
  bias :: "real list"

definition relu :: "real list \<Rightarrow> real list" where
  "relu x = map (max 0) x"

definition dropout :: "real \<Rightarrow> bool \<Rightarrow> (nat \<Rightarrow> bool) \<Rightarrow> real list \<Rightarrow> real list" where
  "dropout p training dropped x =
     (if training then map (\<lambda>(i, v). if dropped i then 0 else v / (1 - p)) (enumerate 0 x) else x)"

definition linear :: "int \<Rightarrow> int \<Rightarrow> params \<Rightarrow> real list \<Rightarrow> exn + real list" where
  "linear in_features out_features ps x =
     (if int (length x) \<noteq> in_features then Inl RuntimeError
      else Inr (map2 (\<lambda>row b. sum_list (map2 (*) row x) + b) (weight ps) (bias ps)))"

definition softmax :: "real list \<Rightarrow> real list" where
  "softmax x = map (\<lambda>v. exp v / sum_list (map exp x)) x"

text \<open>
  Running a list of these layers on a vector in a given mode. The other layers act on
  image tensors and have no meaning on a vector: they raise.
\<close>

fun run_layers :: "bool \<Rightarrow> (nat \<Rightarrow> bool) \<Rightarrow> params \<Rightarrow> layer list \<Rightarrow> real list \<Rightarrow> exn + real list" where
  "run_layers training dropped ps [] x = Inr x"
| "run_layers training dropped ps (ReLU # ls) x = run_layers training dropped ps ls (relu x)"
| "run_layers training dropped ps (Dropout p # ls) x =
     run_layers training dropped ps ls (dropout p training dropped x)"
| "run_layers training dropped ps (Linear i out # ls) x =
     (case linear i out ps x of Inl e \<Rightarrow> Inl e | Inr y \<Rightarrow> run_layers training dropped ps ls y)"
| "run_layers training dropped ps (Softmax d # ls) x = run_layers training dropped ps ls (softmax x)"
| "run_layers training dropped ps (_ # ls) x = Inl RuntimeError"

text \<open>The parameters of \<open>Linear(1280, 10)\<close>: ten rows of 1280 weights, ten biases.\<close>

definition head_params :: "params \<Rightarrow> bool" where
  "head_params ps \<longleftrightarrow>
     length (weight ps) = 10 \<and> (\<forall>row \<in> set (weight ps). length row = 1280) \<and> length (bias ps) = 10"

section \<open>Inference engine\<close>

text \<open>
  \<open>torch.device(s)\<close> on a string, after the grammar that the documentation of \<open>torch\<close>
  gives: a device type, optionally followed by a colon and a decimal index. It raises
  \<open>RuntimeError\<close> on any other string.
\<close>

record device =
  device_type :: string
  device_index :: "nat option"

definition device_types :: "string list" where
  "device_types =
     [''cpu'', ''cuda'', ''mkldnn'', ''opengl'', ''opencl'', ''ideep'', ''hip'', ''msnpu'', ''xla'',
      ''mps'', ''meta'', ''xpu'', ''vulkan'', ''hpu'', ''mtia'', ''lazy'', ''ipu'', ''ve'', ''fpga'',
      ''maia'', ''privateuseone'']"

definition digit :: "char \<Rightarrow> bool" where
  "digit ch \<longleftrightarrow> ch \<in> set ''0123456789''"

definition decimal :: "string \<Rightarrow> nat" where
  "decimal ds = foldl (\<lambda>n ch. 10 * n + (of_char ch - of_char CHR ''0'')) 0 ds"

definition torch_device :: "string \<Rightarrow> exn + device" where
  "torch_device s =
     (let ty = takeWhile (\<lambda>ch. ch \<noteq> CHR '':'') s;
          rest = dropWhile (\<lambda>ch. ch \<noteq> CHR '':'') s
      in if ty \<notin> set device_types then Inl RuntimeError
         else if rest = [] then Inr \<lparr>device_type = ty, device_index = None\<rparr>
         else if tl rest \<noteq> [] \<and> list_all digit (tl rest)
           then Inr \<lparr>device_type = ty, device_index = Some (decimal (tl rest))\<rparr>
         else Inl RuntimeError)"

text \<open>
  \<open>InferenceModel.__init__(device, path_to_model)\<close>. Its first statement resolves the
  device. The statements after it (building the network, loading the weights from
  \<open>path_to_model\<close>, moving the network to the device, evaluation mode) are the parameter
  \<open>build\<close>; they run only when the first one has not raised. The second argument is
  optional, with a default.
\<close>

definition InferenceModel_init ::
  "(device \<Rightarrow> string \<Rightarrow> exn + 'e) \<Rightarrow> string \<Rightarrow> string option \<Rightarrow> exn + 'e" where
  "InferenceModel_init build dev path_to_model =
     (let path = (case path_to_model of None \<Rightarrow> ''utils/nima/model/pretrain-model.pth'' | Some p \<Rightarrow> p)
      in case torch_device dev of
           Inl e \<Rightarrow> Inl e
         | Inr d \<Rightarrow> build d path)"

text \<open>\<open>InferenceModel.create_model()\<close>: one positional argument, the path.\<close>

definition create_model :: "(device \<Rightarrow> string \<Rightarrow> exn + 'e) \<Rightarrow> exn + 'e" where
  "create_model build =
     (let path_to_model = ''utils/nima/model/pretrain-model.pth''
      in InferenceModel_init build path_to_model None)"

section \<open>Properties of the statistics\<close>

lemma arange_1_11: "arange 1 11 = [1, 2, 3, 4, 5, 6, 7, 8, 9, 10]"
  by (simp add: arange_def upto_rec1)

lemma length_10_list:
  assumes "length (p :: 'a list) = 10"
  obtains a b c d e f g h i j where "p = [a, b, c, d, e, f, g, h, i, j]"
proof -
  from assms have "\<exists>a b c d e f g h i j. p = [a, b, c, d, e, f, g, h, i, j]"
    by (auto simp: length_Suc_conv eval_nat_numeral)
  then show thesis using that by (elim exE)
qed

lemma buckets_1_10: "{1..10::nat} = {1, 2, 3, 4, 5, 6, 7, 8, 9, 10}"
  by auto arith

lemma bucket_cases:
  assumes "(k::nat) \<in> {1..10}"
  obtains "k = 1" | "k = 2" | "k = 3" | "k = 4" | "k = 5"
    | "k = 6" | "k = 7" | "k = 8" | "k = 9" | "k = 10"
  using assms unfolding buckets_1_10 by auto

lemma get_mean_score_10:
  "get_mean_score [a, b, c, d, e, f, g, h, i, j] = Inr (mean10 a b c d e f g h i j)"
  by (simp add: get_mean_score_def arange_1_11 broadcast_def mean10_def)

lemma get_std_score_10:
  "get_std_score [a, b, c, d, e, f, g, h, i, j] =
     Inr (np_sqrt (var10 (mean10 a b c d e f g h i j) a b c d e f g h i j))"
  by (simp add: get_std_score_def get_mean_score_10 arange_1_11 broadcast_def var10_def add.assoc)

lemma var10_nonneg:
  assumes "0 \<le> a" "0 \<le> b" "0 \<le> c" "0 \<le> d" "0 \<le> e" "0 \<le> f" "0 \<le> g" "0 \<le> h" "0 \<le> i" "0 \<le> j"
  shows "0 \<le> var10 m a b c d e f g h i j"
  unfolding var10_def using assms
  by (intro add_nonneg_nonneg mult_nonneg_nonneg zero_le_power2)

lemma mean10_bounds:
  assumes "0 \<le> a" "0 \<le> b" "0 \<le> c" "0 \<le> d" "0 \<le> e" "0 \<le> f" "0 \<le> g" "0 \<le> h" "0 \<le> i" "0 \<le> j"
    and "a + b + c + d + e + f + g + h + i + j = 1"
  shows "1 \<le> mean10 a b c d e f g h i j \<and> mean10 a b c d e f g h i j \<le> 10"
  unfolding mean10_def using assms by linarith

lemma delta_unfold:
  "delta k = map (\<lambda>i. if i = k then 1 else 0) [1, 2, 3, 4, 5, 6, 7, 8, 9, 10]"
  by (simp add: delta_def upt_rec)

lemma uniform_unfold:
  "uniform = [1 / 10, 1 / 10, 1 / 10, 1 / 10, 1 / 10, 1 / 10, 1 / 10, 1 / 10, 1 / 10, 1 / 10]"
  by (simp add: uniform_def eval_nat_numeral)

lemma ScoreDistribution_uniform: "ScoreDistribution uniform"
  by (simp add: ScoreDistribution_def uniform_unfold)

lemma population_std_buckets: "population_std (map real [1..<11]) = sqrt (33 / 4)"
  by (simp add: population_std_def upt_rec power2_eq_square)

lemma sqrt_33_4_approx: "\<bar>sqrt (33 / 4) - 2.8723\<bar> < 0.0001"
proof -
  have "sqrt ((2.8722::real)\<^sup>2) < sqrt (33 / 4)"
    by (rule real_sqrt_less_mono) (simp add: power2_eq_square)
  then have lo: "2.8722 < sqrt (33 / 4)" by simp
  have "sqrt (33 / 4) < sqrt ((2.8724::real)\<^sup>2)"
    by (rule real_sqrt_less_mono) (simp add: power2_eq_square)
  then have hi: "sqrt (33 / 4) < 2.8724" by simp
  from lo hi show ?thesis by linarith
qed

text \<open>
  The standard deviation of a score distribution is a number (not \<open>nan\<close>): the square
  root of the weighted sum of squared deviations, which is not negative.
\<close>

lemma get_std_score_distribution:
  assumes "p = [a, b, c, d, e, f, g, h, i, j]" and "ScoreDistribution p"
  shows "get_std_score p =
     Inr (Some (sqrt (var10 (mean10 a b c d e f g h i j) a b c d e f g h i j)))"
    and "0 \<le> var10 (mean10 a b c d e f g h i j) a b c d e f g h i j"
proof -
  from assms have nn:
    "0 \<le> a" "0 \<le> b" "0 \<le> c" "0 \<le> d" "0 \<le> e" "0 \<le> f" "0 \<le> g" "0 \<le> h" "0 \<le> i" "0 \<le> j"
    by (simp_all add: ScoreDistribution_def)
  show v: "0 \<le> var10 (mean10 a b c d e f g h i j) a b c d e f g h i j"
    by (rule var10_nonneg[OF nn])
  then have "\<not> var10 (mean10 a b c d e f g h i j) a b c d e f g h i j < 0" by simp
  then show "get_std_score p =
     Inr (Some (sqrt (var10 (mean10 a b c d e f g h i j) a b c d e f g h i j)))"
    by (simp add: assms(1) get_std_score_10 np_sqrt_def)
qed

text \<open>
  C1. On an array \<open>p\<close> of ten values, \<open>get_mean_score\<close> returns the sum over the buckets
  \<open>i = 1..10\<close> of \<open>i\<close> times the value of bucket \<open>i\<close> (which is at position \<open>i - 1\<close> of
  the array): the weights are the bucket indices \<open>1..10\<close>, not the positions \<open>0..9\<close>. On
  the distribution with mass one on bucket \<open>k\<close> it returns exactly \<open>k\<close>, for \<open>k\<close> in
  \<open>1..10\<close>.
\<close>

theorem get_mean_score_weighted_sum:
  "(length p = 10 \<longrightarrow> get_mean_score p = Inr (\<Sum>i = 1..10. real i * p ! (i - 1))) \<and>
   (k \<in> {1..10} \<longrightarrow> get_mean_score (delta k) = Inr (real k))"
proof (intro conjI impI)
  assume "length p = 10"
  then obtain a b c d e f g h i j where p: "p = [a, b, c, d, e, f, g, h, i, j]"
    by (rule length_10_list)
  show "get_mean_score p = Inr (\<Sum>i = 1..10. real i * p ! (i - 1))"
    unfolding p buckets_1_10 by (simp add: get_mean_score_10 mean10_def)
next
  assume "k \<in> {1..10}"
  then show "get_mean_score (delta k) = Inr (real k)"
    by (rule bucket_cases) (simp_all add: delta_unfold get_mean_score_10 mean10_def)
qed

theorem get_mean_score_weighted_sum_witness:
  "length uniform = 10 \<and> get_mean_score uniform = Inr (11 / 2) \<and>
   (7::nat) \<in> {1..10} \<and> get_mean_score (delta 7) = Inr 7"
  using get_mean_score_weighted_sum [of uniform 7]
  unfolding buckets_1_10 by (simp add: uniform_unfold)

text \<open>
  C2. On a score distribution \<open>p\<close>, \<open>get_std_score\<close> returns the square root of the sum
  over the buckets \<open>i = 1..10\<close> of \<open>(i - mean)\<^sup>2\<close> times the value of bucket \<open>i\<close>, where
  \<open>mean\<close> is what \<open>get_mean_score\<close> returns on \<open>p\<close>. It returns zero on every
  distribution with all its mass on one bucket, and on the uniform distribution it returns
  the population standard deviation of \<open>1, ..., 10\<close>, which is \<open>2.8723\<close> to four decimals.
\<close>

theorem get_std_score_formula:
  "(ScoreDistribution p \<longrightarrow>
      (\<exists>mean. get_mean_score p = Inr mean \<and>
         get_std_score p = Inr (Some (sqrt (\<Sum>i = 1..10. (real i - mean)\<^sup>2 * p ! (i - 1)))))) \<and>
   (k \<in> {1..10} \<longrightarrow> get_std_score (delta k) = Inr (Some 0)) \<and>
   get_std_score uniform = Inr (Some (population_std (map real [1..<11]))) \<and>
   \<bar>population_std (map real [1..<11]) - 2.8723\<bar> < 0.0001"
proof (intro conjI impI)
  assume sd: "ScoreDistribution p"
  then have "length p = 10" by (simp add: ScoreDistribution_def)
  then obtain a b c d e f g h i j where p: "p = [a, b, c, d, e, f, g, h, i, j]"
    by (rule length_10_list)
  let ?m = "mean10 a b c d e f g h i j"
  have "(\<Sum>i = 1..10. (real i - ?m)\<^sup>2 * p ! (i - 1)) = var10 ?m a b c d e f g h i j"
    unfolding p buckets_1_10 by (simp add: var10_def)
  with get_std_score_distribution(1)[OF p sd]
  have "get_std_score p = Inr (Some (sqrt (\<Sum>i = 1..10. (real i - ?m)\<^sup>2 * p ! (i - 1))))"
    by simp
  moreover have "get_mean_score p = Inr ?m" by (simp add: p get_mean_score_10)
  ultimately show "\<exists>mean. get_mean_score p = Inr mean \<and>
      get_std_score p = Inr (Some (sqrt (\<Sum>i = 1..10. (real i - mean)\<^sup>2 * p ! (i - 1))))"
    by blast
next
  assume "k \<in> {1..10}"
  then show "get_std_score (delta k) = Inr (Some 0)"
    by (rule bucket_cases)
      (simp_all add: delta_unfold get_std_score_10 mean10_def var10_def np_sqrt_def)
next
  show "get_std_score uniform = Inr (Some (population_std (map real [1..<11])))"
    unfolding population_std_buckets
    by (simp add: uniform_unfold get_std_score_10 mean10_def var10_def np_sqrt_def
        power2_eq_square)
next
  show "\<bar>population_std (map real [1..<11]) - 2.8723\<bar> < 0.0001"
    unfolding population_std_buckets by (rule sqrt_33_4_approx)
qed

theorem get_std_score_formula_witness:
  "ScoreDistribution uniform \<and> get_mean_score uniform = Inr (11 / 2) \<and>
   get_std_score uniform = Inr (Some (sqrt (33 / 4))) \<and>
   (3::nat) \<in> {1..10} \<and> get_std_score (delta 3) = Inr (Some 0)"
  using get_std_score_formula [of uniform 3] ScoreDistribution_uniform
  unfolding population_std_buckets
  by (simp add: uniform_unfold get_mean_score_10 mean10_def)

text \<open>
  C3. On every score distribution (ten values, none negative, with sum one) the mean
  that \<open>get_mean_score\<close> returns lies between \<open>1\<close> and \<open>10\<close>, and \<open>get_std_score\<close> returns a
  number that is not negative. Both are functions of the distribution and of nothing
  else: they take no other argument and read no state.
\<close>

theorem score_summary_range:
  assumes "ScoreDistribution p"
  shows "\<exists>mean std. get_mean_score p = Inr mean \<and> 1 \<le> mean \<and> mean \<le> 10 \<and>
           get_std_score p = Inr (Some std) \<and> 0 \<le> std"
proof -
  from assms have "length p = 10" by (simp add: ScoreDistribution_def)
  then obtain a b c d e f g h i j where p: "p = [a, b, c, d, e, f, g, h, i, j]"
    by (rule length_10_list)
  from assms have nn:
    "0 \<le> a" "0 \<le> b" "0 \<le> c" "0 \<le> d" "0 \<le> e" "0 \<le> f" "0 \<le> g" "0 \<le> h" "0 \<le> i" "0 \<le> j"
    by (simp_all add: ScoreDistribution_def p)
  from assms have s: "a + b + c + d + e + f + g + h + i + j = 1"
    by (simp add: ScoreDistribution_def p add.assoc)
  let ?m = "mean10 a b c d e f g h i j"
  have "get_mean_score p = Inr ?m" by (simp add: p get_mean_score_10)
  moreover have "get_std_score p = Inr (Some (sqrt (var10 ?m a b c d e f g h i j)))"
    by (rule get_std_score_distribution(1)[OF p assms])
  moreover have "0 \<le> sqrt (var10 ?m a b c d e f g h i j)"
    using get_std_score_distribution(2)[OF p assms] by simp
  ultimately show ?thesis using mean10_bounds[OF nn s] by blast
qed

theorem score_summary_range_witness:
  "ScoreDistribution uniform \<and>
   (\<exists>mean std. get_mean_score uniform = Inr mean \<and> 1 \<le> mean \<and> mean \<le> 10 \<and>
      get_std_score uniform = Inr (Some std) \<and> 0 \<le> std)"
  using score_summary_range [OF ScoreDistribution_uniform] ScoreDistribution_uniform
  by simp

section \<open>Properties of the network architecture\<close>

text \<open>
  C4. For a block constructed with \<open>(inp, oup, stride, expand_ratio)\<close> and an input \<open>x\<close>:
  when the stride is \<open>1\<close> and \<open>inp = oup\<close>, the output of \<open>forward\<close> is \<open>x\<close> plus the
  result of the projection path \<open>conv\<close> on \<open>x\<close>; otherwise it is that result unchanged.
  When the projection path raises, so does \<open>forward\<close>.
\<close>

theorem InvertedResidual_forward_shortcut:
  assumes "InvertedResidual_init inp oup strd expand_ratio = Inr b"
  shows "InvertedResidual_forward run b x =
           (case run (conv b) x of
              Inl e \<Rightarrow> Inl e
            | Inr y \<Rightarrow> Inr (if strd = 1 \<and> inp = oup then x + y else y))"
  using assms
  by (auto simp: InvertedResidual_init_def InvertedResidual_forward_def
           split: if_splits sum.splits)

theorem InvertedResidual_forward_shortcut_witness:
  "InvertedResidual_init 24 24 1 6 =
     Inr \<lparr>stride = 1, use_res_connect = True,
          conv = [Conv2d 24 144 1 1 0 1, BatchNorm2d 144, ReLU6,
                  Conv2d 144 144 3 1 1 144, BatchNorm2d 144, ReLU6,
                  Conv2d 144 24 1 1 0 1, BatchNorm2d 24]\<rparr> \<and>
   InvertedResidual_forward (\<lambda>ls v. Inr (2 * v))
     \<lparr>stride = 1, use_res_connect = True,
      conv = [Conv2d 24 144 1 1 0 1, BatchNorm2d 144, ReLU6,
              Conv2d 144 144 3 1 1 144, BatchNorm2d 144, ReLU6,
              Conv2d 144 24 1 1 0 1, BatchNorm2d 24]\<rparr> (5::int) = Inr 15"
proof -
  have c: "InvertedResidual_init 24 24 1 6 =
     Inr \<lparr>stride = 1, use_res_connect = True,
          conv = [Conv2d 24 144 1 1 0 1, BatchNorm2d 144, ReLU6,
                  Conv2d 144 144 3 1 1 144, BatchNorm2d 144, ReLU6,
                  Conv2d 144 24 1 1 0 1, BatchNorm2d 24]\<rparr>"
    by (simp add: InvertedResidual_init_def)
  show ?thesis
    using c InvertedResidual_forward_shortcut [OF c, of "\<lambda>ls v. Inr (2 * v)" "5::int"]
    by simp
qed

lemma spec_blocks_stage_table:
  "spec_blocks 32 stage_table =
     [(32, 16, 1, 1), (16, 24, 2, 6), (24, 24, 1, 6), (24, 32, 2, 6), (32, 32, 1, 6),
      (32, 32, 1, 6), (32, 64, 2, 6), (64, 64, 1, 6), (64, 64, 1, 6), (64, 64, 1, 6),
      (64, 96, 1, 6), (96, 96, 1, 6), (96, 96, 1, 6), (96, 160, 2, 6), (160, 160, 1, 6),
      (160, 160, 1, 6), (160, 320, 1, 6)]"
  by (simp add: stage_table_def eval_nat_numeral)

lemma stages_width_1:
  "stages 1 stage_table ([Sequential (conv_bn 3 32 2)], 32) =
     Inr (Sequential (conv_bn 3 32 2) #
            map (\<lambda>(inp, oup, s, t). Block (projr (InvertedResidual_init inp oup s t)))
              (spec_blocks 32 stage_table), 320)"
  unfolding spec_blocks_stage_table
  by (simp add: stage_table_def py_int_def py_range_def upto_rec1 InvertedResidual_init_def)

lemma MobileNetV2_init_width_1:
  assumes "input_size mod 32 = 0"
  shows "MobileNetV2_init n_class input_size 1 =
     Inr \<lparr>interverted_residual_setting = stage_table,
          last_channel = 1280,
          features =
            (Sequential (conv_bn 3 32 2) #
               map (\<lambda>(inp, oup, s, t). Block (projr (InvertedResidual_init inp oup s t)))
                 (spec_blocks 32 stage_table)) @
            [Sequential (conv_1x1_bn 320 1280), Prim (AvgPool2d (input_size div 32))],
          classifier = [Dropout (1 / 2), Linear 1280 n_class]\<rparr>"
  using assms stages_width_1
  by (simp add: MobileNetV2_init_def stage_table_def py_int_def)

text \<open>
  C5. With width multiplier \<open>1\<close> (and an input size that passes the assertion), the
  constructor of \<open>MobileNetV2\<close> keeps the stage table of the specification, and its list of
  features is the stem, then the inverted-residual blocks that the stage table describes,
  in order, then the tail: for each stage \<open>(t, c, n, s)\<close>, \<open>n\<close> blocks, the first with stride
  \<open>s\<close> and the others with stride \<open>1\<close>. The first block takes the \<open>32\<close> output channels of the
  stem as input, and each further block takes as many input channels as the block before
  it has output channels.
\<close>

theorem MobileNetV2_blocks_from_stage_table:
  assumes "input_size mod 32 = 0"
  shows "\<exists>m. MobileNetV2_init n_class input_size 1 = Inr m \<and>
     interverted_residual_setting m = stage_table \<and>
     (let bs = [b. Block b \<leftarrow> features m] in
        features m =
          Sequential (conv_bn 3 32 2) # map Block bs @
            [Sequential (conv_1x1_bn 320 1280), Prim (AvgPool2d (input_size div 32))] \<and>
        map Inr bs =
          map (\<lambda>(inp, oup, s, t). InvertedResidual_init inp oup s t)
            (spec_blocks 32 stage_table)) \<and>
     chained 32 (spec_blocks 32 stage_table)"
  unfolding MobileNetV2_init_width_1[OF assms] spec_blocks_stage_table
  by (simp add: InvertedResidual_init_def stage_table_def)

theorem MobileNetV2_blocks_from_stage_table_witness:
  "(224::int) mod 32 = 0 \<and>
   (\<exists>m. MobileNetV2_init 1000 224 1 = Inr m \<and>
     interverted_residual_setting m = stage_table \<and>
     (let bs = [b. Block b \<leftarrow> features m] in
        features m =
          Sequential (conv_bn 3 32 2) # map Block bs @
            [Sequential (conv_1x1_bn 320 1280), Prim (AvgPool2d 7)] \<and>
        map Inr bs =
          map (\<lambda>(inp, oup, s, t). InvertedResidual_init inp oup s t)
            (spec_blocks 32 stage_table)) \<and>
     chained 32 (spec_blocks 32 stage_table))"
  using MobileNetV2_blocks_from_stage_table [of 224 1000] by simp

lemma InvertedResidual_init_stride:
  assumes "s \<in> {1, 2}"
  shows "\<exists>b. InvertedResidual_init inp oup s t = Inr b \<and> stride b = s"
  using assms by (auto simp: InvertedResidual_init_def)

lemma stage_blocks_strides:
  assumes "s \<in> {1, 2}"
  shows "\<exists>bs c. stage_blocks t oc s is (feats, ic) = Inr (feats @ map Block bs, c) \<and>
           (\<forall>b \<in> set bs. stride b \<in> {1, 2})"
proof (induction "is" arbitrary: feats ic)
  case Nil
  have "stage_blocks t oc s [] (feats, ic) = Inr (feats @ map Block [], ic)" by simp
  then show ?case by (metis empty_iff list.set(1))
next
  case (Cons i "is")
  have mem: "(if i = 0 then s else 1) \<in> {1, 2}" using assms by auto
  from InvertedResidual_init_stride[OF mem, of ic oc t]
  obtain b where b: "InvertedResidual_init ic oc (if i = 0 then s else 1) t = Inr b"
    and "stride b = (if i = 0 then s else 1)" by blast
  with mem have sb: "stride b \<in> {1, 2}" by metis
  from Cons.IH[of "feats @ [Block b]" oc]
  obtain bs c where
    r: "stage_blocks t oc s is (feats @ [Block b], oc) = Inr ((feats @ [Block b]) @ map Block bs, c)"
    and sbs: "\<forall>b \<in> set bs. stride b \<in> {1, 2}" by blast
  have "stage_blocks t oc s (i # is) (feats, ic) = Inr (feats @ map Block (b # bs), c)"
    using b r by (simp split: if_splits)
  moreover have "\<forall>b' \<in> set (b # bs). stride b' \<in> {1, 2}" using sb sbs by simp
  ultimately show ?case by blast
qed

lemma stages_strides:
  assumes "\<forall>(t, c, n, s) \<in> set table. s \<in> {1, 2}"
  shows "\<exists>bs c. stages width_mult table (feats, ic) = Inr (feats @ map Block bs, c) \<and>
           (\<forall>b \<in> set bs. stride b \<in> {1, 2})"
  using assms
proof (induction table arbitrary: feats ic)
  case Nil
  have "stages width_mult [] (feats, ic) = Inr (feats @ map Block [], ic)" by simp
  then show ?case by (metis empty_iff list.set(1))
next
  case (Cons row table)
  obtain t c n s where row: "row = (t, c, n, s)" by (cases row) auto
  with Cons.prems have s: "s \<in> {1, 2}" and rest: "\<forall>(t, c, n, s) \<in> set table. s \<in> {1, 2}"
    by auto
  from stage_blocks_strides[OF s]
  obtain bs c' where
    r1: "stage_blocks t (py_int (real_of_int c * width_mult)) s (py_range n) (feats, ic) =
           Inr (feats @ map Block bs, c')"
    and s1: "\<forall>b \<in> set bs. stride b \<in> {1, 2}" by blast
  from Cons.IH[OF rest, of "feats @ map Block bs" c']
  obtain bs' c'' where
    r2: "stages width_mult table (feats @ map Block bs, c') =
           Inr ((feats @ map Block bs) @ map Block bs', c'')"
    and s2: "\<forall>b \<in> set bs'. stride b \<in> {1, 2}" by blast
  have "stages width_mult (row # table) (feats, ic) = Inr (feats @ map Block (bs @ bs'), c'')"
    using r1 r2 by (simp add: row)
  moreover have "\<forall>b \<in> set (bs @ bs'). stride b \<in> {1, 2}" using s1 s2 by auto
  ultimately show ?case by blast
qed

lemma MobileNetV2_init_multiple:
  assumes "input_size mod 32 = 0"
  shows "\<exists>bs c. MobileNetV2_init n_class input_size width_mult =
     Inr \<lparr>interverted_residual_setting = stage_table,
          last_channel = (if width_mult > 1 then py_int (1280 * width_mult) else 1280),
          features =
            (Sequential (conv_bn 3 (py_int (32 * width_mult)) 2) # map Block bs) @
            [Sequential (conv_1x1_bn c (if width_mult > 1 then py_int (1280 * width_mult) else 1280)),
             Prim (AvgPool2d (input_size div 32))],
          classifier =
            [Dropout (1 / 2),
             Linear (if width_mult > 1 then py_int (1280 * width_mult) else 1280) n_class]\<rparr> \<and>
     (\<forall>b \<in> set bs. stride b \<in> {1, 2})"
proof -
  have "\<forall>(t, c, n, s) \<in> set stage_table. s \<in> {1, 2}" by (simp add: stage_table_def)
  from stages_strides[OF this]
  obtain bs c where st: "stages width_mult stage_table
      ([Sequential (conv_bn 3 (py_int (32 * width_mult)) 2)], py_int (32 * width_mult))
        = Inr ([Sequential (conv_bn 3 (py_int (32 * width_mult)) 2)] @ map Block bs, c)"
    and str: "\<forall>b \<in> set bs. stride b \<in> {1, 2}"
    by blast
  have "MobileNetV2_init n_class input_size width_mult =
     Inr \<lparr>interverted_residual_setting = stage_table,
          last_channel = (if width_mult > 1 then py_int (1280 * width_mult) else 1280),
          features =
            (Sequential (conv_bn 3 (py_int (32 * width_mult)) 2) # map Block bs) @
            [Sequential (conv_1x1_bn c (if width_mult > 1 then py_int (1280 * width_mult) else 1280)),
             Prim (AvgPool2d (input_size div 32))],
          classifier =
            [Dropout (1 / 2),
             Linear (if width_mult > 1 then py_int (1280 * width_mult) else 1280) n_class]\<rparr>"
    using assms st unfolding stage_table_def by (simp add: MobileNetV2_init_def Let_def)
  with str show ?thesis by blast
qed

text \<open>
  C10, as amended. The constructor of \<open>MobileNetV2\<close> raises \<open>AssertionError\<close> on every input size
  that is not a multiple of \<open>32\<close>, and on no multiple of \<open>32\<close>, whatever the width
  multiplier: every stride handed to \<open>InvertedResidual\<close> from the stage table is \<open>1\<close> or \<open>2\<close>,
  so the assertion of the block does not fail either. In a network that the constructor
  returns, the input size is a multiple of \<open>32\<close>, the kernel size of the final average
  pooling is \<open>input_size div 32\<close>, which is positive when the input size is positive and is
  \<open>7\<close> for the default input size \<open>224\<close>, and every block has stride \<open>1\<close> or \<open>2\<close>.
\<close>

theorem MobileNetV2_init_assertions:
  "(input_size mod 32 \<noteq> 0 \<longrightarrow>
      MobileNetV2_init n_class input_size width_mult = Inl AssertionError) \<and>
   (input_size mod 32 = 0 \<longrightarrow>
      MobileNetV2_init n_class input_size width_mult \<noteq> Inl AssertionError) \<and>
   (MobileNetV2_init n_class input_size width_mult = Inr m \<longrightarrow>
      input_size mod 32 = 0 \<and>
      last (features m) = Prim (AvgPool2d (input_size div 32)) \<and>
      (0 < input_size \<longrightarrow> 0 < input_size div 32) \<and>
      (input_size = 224 \<longrightarrow> input_size div 32 = 7) \<and>
      (\<forall>b. Block b \<in> set (features m) \<longrightarrow> stride b \<in> {1, 2}))"
proof (intro conjI impI)
  assume "input_size mod 32 \<noteq> 0"
  then show "MobileNetV2_init n_class input_size width_mult = Inl AssertionError"
    by (simp add: MobileNetV2_init_def)
next
  assume "input_size mod 32 = 0"
  from MobileNetV2_init_multiple[OF this, of n_class width_mult]
  show "MobileNetV2_init n_class input_size width_mult \<noteq> Inl AssertionError" by auto
next
  assume r: "MobileNetV2_init n_class input_size width_mult = Inr m"
  show m: "input_size mod 32 = 0"
  proof (rule ccontr)
    assume "input_size mod 32 \<noteq> 0"
    then have "MobileNetV2_init n_class input_size width_mult = Inl AssertionError"
      by (simp add: MobileNetV2_init_def)
    with r show False by simp
  qed
  from MobileNetV2_init_multiple[OF m, of n_class width_mult] r
  obtain bs c where f: "features m =
      (Sequential (conv_bn 3 (py_int (32 * width_mult)) 2) # map Block bs) @
      [Sequential (conv_1x1_bn c (if width_mult > 1 then py_int (1280 * width_mult) else 1280)),
       Prim (AvgPool2d (input_size div 32))]"
    and str: "\<forall>b \<in> set bs. stride b \<in> {1, 2}" by auto
  show "last (features m) = Prim (AvgPool2d (input_size div 32))"
    unfolding f by simp
  show "\<forall>b. Block b \<in> set (features m) \<longrightarrow> stride b \<in> {1, 2}"
    unfolding f using str by auto
  show "input_size div 32 = 7" if "input_size = 224" using that by simp
  show "0 < input_size div 32" if "0 < input_size"
    using m that by (auto simp: pos_imp_zdiv_pos_iff intro: zdvd_imp_le)
qed

theorem MobileNetV2_init_assertions_witness:
  "(225::int) mod 32 \<noteq> 0 \<and> MobileNetV2_init 1000 225 1 = Inl AssertionError \<and>
   (224::int) mod 32 = 0 \<and> MobileNetV2_init 1000 224 1 \<noteq> Inl AssertionError \<and>
   (\<exists>m. MobileNetV2_init 1000 224 1 = Inr m \<and>
         last (features m) = Prim (AvgPool2d 7) \<and>
         (\<forall>b. Block b \<in> set (features m) \<longrightarrow> stride b \<in> {1, 2}))"
proof -
  obtain m where m: "MobileNetV2_init 1000 224 1 = Inr m"
    using MobileNetV2_init_width_1[of 224 1000] by simp
  show ?thesis
    using m MobileNetV2_init_assertions [of 225 1000 1 m]
      MobileNetV2_init_assertions [of 224 1000 1 m]
    by simp
qed

text \<open>
  C10 as stated fails at the input size \<open>0\<close>, which is a multiple of \<open>32\<close>: the
  constructor returns a network, whose final average pooling has kernel size \<open>0\<close>, which
  is not positive.
\<close>

theorem avg_pool_kernel_zero:
  "(0::int) mod 32 = 0 \<and>
   map_sum id (\<lambda>m. last (features m)) (MobileNetV2_init 1000 0 1) = Inr (Prim (AvgPool2d 0)) \<and>
   \<not> (0::int) < 0 div 32"
  by (simp add: MobileNetV2_init_width_1)

section \<open>Properties of the inference engine\<close>

text \<open>
  C8. \<open>create_model\<close> calls the constructor with the path of the weight file as its first
  argument, the device, and leaves \<open>path_to_model\<close> to its default. The path is not a
  device string, so resolving the device raises: whatever the rest of the constructor
  does, \<open>create_model\<close> raises \<open>RuntimeError\<close> and never returns an engine.
\<close>

theorem create_model_device_is_path:
  "create_model build =
     InferenceModel_init build ''utils/nima/model/pretrain-model.pth'' None \<and>
   torch_device ''utils/nima/model/pretrain-model.pth'' = Inl RuntimeError \<and>
   create_model build = Inl RuntimeError"
  by (simp add: create_model_def InferenceModel_init_def torch_device_def device_types_def)

section \<open>Properties of weight provisioning\<close>



lemma download_file_cached:
  assumes "fs w local_filename \<noteq> None"
  shows "download_file net url local_filename chunk_size w = (Inr local_filename, w)"
  using assms by (simp add: download_file_def)

text \<open>
  C7. When the local file exists, \<open>download_file\<close> returns its path and leaves the world as
  it is: no request is made, nothing is printed, and no file changes (the content of the
  existing file is not looked at). So after two calls on an existing path the file still
  has its content and no request has been made, which is at most one.
\<close>

theorem download_file_existing:
  assumes "fs w local_filename = Some content"
  shows "download_file net url local_filename chunk_size w = (Inr local_filename, w) \<and>
    (case download_file net url local_filename chunk_size w of
       (r1, w1) \<Rightarrow>
         (case download_file net' url' local_filename chunk_size' w1 of
            (r2, w2) \<Rightarrow>
              r1 = Inr local_filename \<and> r2 = Inr local_filename \<and>
              fs w2 local_filename = Some content \<and>
              requests w1 = requests w \<and> requests w2 = requests w \<and>
              length (requests w2) \<le> length (requests w) + 1))"
  using assms by (simp add: download_file_cached)

theorem download_file_existing_witness:
  "fs \<lparr>fs = [''m.pth'' \<mapsto> ''abc''], requests = [], stdout = [],
       open_error = (\<lambda>p. None), write_error = (\<lambda>p n. None)\<rparr> ''m.pth'' = Some ''abc'' \<and>
   download_file (\<lambda>u. Inl Timeout) ''http://h/m'' ''m.pth'' 1024
       \<lparr>fs = [''m.pth'' \<mapsto> ''abc''], requests = [], stdout = [],
        open_error = (\<lambda>p. None), write_error = (\<lambda>p n. None)\<rparr> =
     (Inr ''m.pth'',
      \<lparr>fs = [''m.pth'' \<mapsto> ''abc''], requests = [], stdout = [],
       open_error = (\<lambda>p. None), write_error = (\<lambda>p n. None)\<rparr>)"
  using download_file_existing
    [of "\<lparr>fs = [''m.pth'' \<mapsto> ''abc''], requests = [], stdout = [],
          open_error = (\<lambda>p. None), write_error = (\<lambda>p n. None)\<rparr>"
      "''m.pth''" "''abc''" "\<lambda>u. Inl Timeout" "''http://h/m''" 1024]
  by simp




section \<open>Properties of the aesthetic head\<close>

lemma sum_list_exp_nonneg: "0 \<le> sum_list (map exp (x :: real list))"
  by (rule sum_list_nonneg) auto

lemma sum_list_exp_pos:
  assumes "x \<noteq> []"
  shows "0 < sum_list (map exp (x :: real list))"
proof (cases x)
  case Nil
  with assms show ?thesis by simp
next
  case (Cons a xs)
  have "0 < exp a + sum_list (map exp xs)"
    by (rule add_pos_nonneg) (simp_all add: sum_list_exp_nonneg)
  with Cons show ?thesis by simp
qed

lemma exp_le_sum_list:
  assumes "v \<in> set x"
  shows "exp v \<le> sum_list (map exp (x :: real list))"
  using assms
proof (induction x)
  case Nil
  then show ?case by simp
next
  case (Cons a x)
  show ?case
  proof (cases "v = a")
    case True
    then show ?thesis using sum_list_exp_nonneg[of x] by simp
  next
    case False
    with Cons have "exp v \<le> sum_list (map exp x)" by simp
    then show ?thesis by (simp add: add_increasing)
  qed
qed

lemma sum_list_divide:
  "sum_list (map (\<lambda>v. f v / c) xs) = sum_list (map f xs) / (c :: real)"
  by (induction xs) (simp_all add: add_divide_distrib)

lemma length_softmax: "length (softmax x) = length x"
  by (simp add: softmax_def)

lemma sum_list_softmax:
  assumes "x \<noteq> []"
  shows "sum_list (softmax x) = 1"
proof -
  have "sum_list (softmax x) = sum_list (map exp x) / sum_list (map exp x)"
    unfolding softmax_def by (rule sum_list_divide)
  with sum_list_exp_pos[OF assms] show ?thesis by simp
qed

lemma softmax_range:
  assumes "y \<in> set (softmax x)"
  shows "0 \<le> y \<and> y \<le> 1"
proof -
  from assms obtain v where v: "v \<in> set x" and y: "y = exp v / sum_list (map exp x)"
    by (auto simp: softmax_def)
  from v have "x \<noteq> []" by auto
  then have pos: "0 < sum_list (map exp x)" by (rule sum_list_exp_pos)
  with exp_le_sum_list[OF v] show ?thesis unfolding y by simp
qed

lemma length_linear:
  assumes "linear i out ps x = Inr y"
  shows "length y = min (length (weight ps)) (length (bias ps))"
  using assms by (auto simp: linear_def split: if_splits)

lemma length_relu: "length (relu x) = length x"
  by (simp add: relu_def)

lemma length_dropout: "length (dropout p training dropped x) = length x"
  by (simp add: dropout_def)

text \<open>
  C6. The head is the sequence \<open>ReLU\<close>, \<open>Dropout\<close> with probability \<open>0.75\<close>, \<open>Linear\<close> from
  \<open>1280\<close> to \<open>10\<close>, \<open>Softmax\<close>. Outside training mode the dropout changes nothing, and the
  head returns the softmax of the linear layer applied to the rectified input. In either
  mode, on an embedding of length \<open>1280\<close>, the head returns ten values, each between \<open>0\<close>
  and \<open>1\<close>, with sum \<open>1\<close>.
\<close>

theorem NIMA_head_distribution:
  assumes "head_params ps" and "length x = 1280"
  shows "NIMA_head = [ReLU, Dropout (3 / 4), Linear 1280 10, Softmax 1] \<and>
    dropout (3 / 4) False dropped (relu x) = relu x \<and>
    (\<exists>z. linear 1280 10 ps (relu x) = Inr z \<and>
       run_layers False dropped ps NIMA_head x = Inr (softmax z)) \<and>
    (\<exists>y. run_layers training dropped ps NIMA_head x = Inr y \<and> length y = 10 \<and>
       (\<forall>v \<in> set y. 0 \<le> v \<and> v \<le> 1) \<and> sum_list y = 1)"
proof (intro conjI)
  show "NIMA_head = [ReLU, Dropout (3 / 4), Linear 1280 10, Softmax 1]"
    by (simp add: NIMA_head_def)
  show "dropout (3 / 4) False dropped (relu x) = relu x"
    by (simp add: dropout_def)
  have len: "int (length (dropout (3 / 4) t dropped (relu x))) = 1280" for t
    using assms(2) by (simp add: length_dropout length_relu)
  then obtain z where z: "linear 1280 10 ps (dropout (3 / 4) training dropped (relu x)) = Inr z"
    by (auto simp: linear_def)
  then have lz: "length z = 10"
    using assms(1) by (simp add: length_linear head_params_def)
  then have ne: "z \<noteq> []" by auto
  have r: "run_layers training dropped ps NIMA_head x = Inr (softmax z)"
    using z by (simp add: NIMA_head_def)
  show "\<exists>y. run_layers training dropped ps NIMA_head x = Inr y \<and> length y = 10 \<and>
       (\<forall>v \<in> set y. 0 \<le> v \<and> v \<le> 1) \<and> sum_list y = 1"
    using r lz softmax_range sum_list_softmax[OF ne] by (auto simp: length_softmax)
  from len[of False] obtain z' where z': "linear 1280 10 ps (relu x) = Inr z'"
    by (auto simp: linear_def dropout_def)
  then show "\<exists>z. linear 1280 10 ps (relu x) = Inr z \<and>
       run_layers False dropped ps NIMA_head x = Inr (softmax z)"
    by (simp add: NIMA_head_def dropout_def)
qed

theorem NIMA_head_distribution_witness:
  "head_params \<lparr>weight = replicate 10 (replicate 1280 0), bias = replicate 10 0\<rparr> \<and>
   length (replicate 1280 (0::real)) = 1280 \<and>
   (\<exists>y. run_layers False (\<lambda>i. False)
           \<lparr>weight = replicate 10 (replicate 1280 0), bias = replicate 10 0\<rparr> NIMA_head
           (replicate 1280 0) = Inr y \<and>
      length y = 10 \<and> (\<forall>v \<in> set y. 0 \<le> v \<and> v \<le> 1) \<and> sum_list y = 1)"
proof -
  have h: "head_params \<lparr>weight = replicate 10 (replicate 1280 0), bias = replicate 10 0\<rparr>"
    by (simp add: head_params_def)
  have l: "length (replicate 1280 (0::real)) = 1280" by simp
  show ?thesis
    using h l NIMA_head_distribution [OF h l, of "\<lambda>i. False" False] by blast
qed

end
